theory Spec2Isabelle
  imports Main "HOL-Library.Word"
begin

section \<open>The endpoint slice cache of the Kubernetes service registry\<close>

text \<open>
  A shallow embedding of \<^verbatim>\<open>pilot/pkg/serviceregistry/kube/controller/endpointslice.go\<close>:
  the cache \<^verbatim>\<open>endpointSliceCache\<close> with its four operations, the processor
  \<^verbatim>\<open>updateEndpointCacheForSlice\<close> that fills it, and the point query
  \<^verbatim>\<open>InstancesByPort\<close>.
\<close>

subsection \<open>Data\<close>

text \<open>\<^verbatim>\<open>model.HealthStatus\<close>, as far as this file assigns it.\<close>

datatype HealthStatus = Healthy | UnHealthy | Draining

text \<open>
  \<^verbatim>\<open>model.IstioEndpoint\<close>. The file reads \<^verbatim>\<open>Address\<close> and \<^verbatim>\<open>ServicePortName\<close>
  and writes \<^verbatim>\<open>HealthStatus\<close>; everything else the endpoint builder fills in is kept
  in one field of an arbitrary type.
\<close>

record 'md IstioEndpoint =
  Address :: string
  ServicePortName :: string
  EndpointPort :: "32 word"
  HealthStatus :: HealthStatus
  Enrichment :: 'md

text \<open>\<^verbatim>\<open>endpointKey\<close> identifies an endpoint by IP and port name.\<close>

record endpointKey =
  ip :: string
  port :: string

definition keyOf :: "'md IstioEndpoint \<Rightarrow> endpointKey" where
  "keyOf ep = \<lparr>ip = Address ep, port = ServicePortName ep\<rparr>"

text \<open>
  \<^verbatim>\<open>endpointsByServiceAndSlice map[host.Name]map[string][]*model.IstioEndpoint\<close>.
  The mutex of the struct guards every operation as a whole, so each operation is one
  atomic step on the map, which is the only state. A \<^verbatim>\<open>nil\<close> and an empty Go slice
  are both the empty list: the code only takes their length and ranges over them.
\<close>

type_synonym 'md sliceMap = "string \<rightharpoonup> 'md IstioEndpoint list"

type_synonym 'md endpointSliceCache = "string \<rightharpoonup> 'md sliceMap"

definition newEndpointSliceCache :: "'md endpointSliceCache" where
  "newEndpointSliceCache = Map.empty"

text \<open>
  Reading \<^verbatim>\<open>e.endpointsByServiceAndSlice[hostname]\<close>: a missing key gives the
  \<^verbatim>\<open>nil\<close> map, which reads like the empty map.
\<close>

definition slicesOf :: "'md endpointSliceCache \<Rightarrow> string \<Rightarrow> 'md sliceMap" where
  "slicesOf e hostname = (case e hostname of None \<Rightarrow> Map.empty | Some m \<Rightarrow> m)"

text \<open>
  \<^verbatim>\<open>delete(e.endpointsByServiceAndSlice[hostname], slice)\<close>: no effect on a
  \<^verbatim>\<open>nil\<close> map, otherwise the inner map loses the key in place.
\<close>

definition deleteSlice :: "'md endpointSliceCache \<Rightarrow> string \<Rightarrow> string \<Rightarrow> 'md endpointSliceCache" where
  "deleteSlice e hostname sliceName =
     (case e hostname of
        None \<Rightarrow> e
      | Some m \<Rightarrow> e(hostname \<mapsto> m(sliceName := None)))"

subsection \<open>The cache operations\<close>

definition Update ::
  "'md endpointSliceCache \<Rightarrow> string \<Rightarrow> string \<Rightarrow> 'md IstioEndpoint list \<Rightarrow> 'md endpointSliceCache" where
  "Update e hostname sliceName endpoints =
     (let e1 = (if length endpoints = 0 then deleteSlice e hostname sliceName else e);
          e2 = (case e1 hostname of None \<Rightarrow> e1(hostname \<mapsto> Map.empty) | Some _ \<Rightarrow> e1)
      in e2(hostname \<mapsto> (slicesOf e2 hostname)(sliceName \<mapsto> endpoints)))"

definition Delete :: "'md endpointSliceCache \<Rightarrow> string \<Rightarrow> string \<Rightarrow> 'md endpointSliceCache" where
  "Delete e hostname sliceName =
     (let e1 = deleteSlice e hostname sliceName
      in if dom (slicesOf e1 hostname) = {} then e1(hostname := None) else e1)"

definition Has :: "'md endpointSliceCache \<Rightarrow> string \<Rightarrow> bool" where
  "Has e hostname = (case e hostname of None \<Rightarrow> False | Some _ \<Rightarrow> True)"

text \<open>
  \<^verbatim>\<open>Get\<close> ranges over the inner map, and Go leaves the order of that iteration
  open. The order is an argument of the model: \<open>ks\<close> lists the slice names in the
  order the loop visits them, and \<open>rangeOrder\<close> says that it is such an order
  (every key once). The loop state is the set \<^verbatim>\<open>found\<close> and the list
  \<^verbatim>\<open>endpoints\<close>.
\<close>

definition rangeOrder :: "('k \<rightharpoonup> 'v) \<Rightarrow> 'k list \<Rightarrow> bool" where
  "rangeOrder m ks = (distinct ks \<and> set ks = dom m)"

fun GetEps ::
  "'md IstioEndpoint list \<Rightarrow> endpointKey set \<times> 'md IstioEndpoint list
     \<Rightarrow> endpointKey set \<times> 'md IstioEndpoint list" where
  "GetEps [] (found, endpoints) = (found, endpoints)"
| "GetEps (ep # eps) (found, endpoints) =
     (let key = \<lparr>ip = Address ep, port = ServicePortName ep\<rparr>
      in if key \<in> found then GetEps eps (found, endpoints)
         else GetEps eps (insert key found, endpoints @ [ep]))"

fun GetSlices ::
  "'md sliceMap \<Rightarrow> string list \<Rightarrow> endpointKey set \<times> 'md IstioEndpoint list
     \<Rightarrow> endpointKey set \<times> 'md IstioEndpoint list" where
  "GetSlices m [] st = st"
| "GetSlices m (k # ks) st =
     GetSlices m ks (GetEps (case m k of None \<Rightarrow> [] | Some eps \<Rightarrow> eps) st)"

definition Get :: "'md endpointSliceCache \<Rightarrow> string \<Rightarrow> string list \<Rightarrow> 'md IstioEndpoint list" where
  "Get e hostname ks = snd (GetSlices (slicesOf e hostname) ks ({}, []))"

text \<open>
  What the slices of an inner map contribute: the endpoints that the list of some slice
  holds. With \<open>m(p := None)\<close> for \<open>m\<close> it is what the slices other than \<open>p\<close>
  contribute.
\<close>

definition contributed :: "'md sliceMap \<Rightarrow> 'md IstioEndpoint set" where
  "contributed m = {ep. \<exists>q eps. m q = Some eps \<and> ep \<in> set eps}"

text \<open>The cache states that the operations can produce from the new cache.\<close>

inductive reachable :: "'md endpointSliceCache \<Rightarrow> bool" where
  reachable_new: "reachable newEndpointSliceCache"
| reachable_Update: "reachable e \<Longrightarrow> reachable (Update e hostname sliceName endpoints)"
| reachable_Delete: "reachable e \<Longrightarrow> reachable (Delete e hostname sliceName)"

subsection \<open>Kubernetes objects and the controller\<close>

text \<open>
  The fields of \<^verbatim>\<open>v1.EndpointSlice\<close>, \<^verbatim>\<open>v1.Endpoint\<close>, \<^verbatim>\<open>v1.EndpointPort\<close>,
  \<^verbatim>\<open>model.Service\<close> and \<^verbatim>\<open>model.Port\<close> that the file reads. A Go pointer
  field is an option (\<^verbatim>\<open>nil\<close> is \<open>None\<close>). Where two structs share a field name
  the name carries a prefix: \<open>ep_\<close> for the slice's port, \<open>sp_\<close> for the service's
  port, \<open>es_\<close> for the slice, \<open>attr_\<close> for the service attributes.
\<close>

record EndpointConditions =
  Ready :: "bool option"
  Serving :: "bool option"

record ObjectReference =
  ref_Kind :: string
  ref_Namespace :: string
  ref_Name :: string

record Endpoint =
  Addresses :: "string list"
  Conditions :: EndpointConditions
  TargetRef :: "ObjectReference option"

record EndpointPort =
  ep_Name :: "string option"
  ep_Port :: "32 word option"

record EndpointSlice =
  es_Name :: string
  es_Namespace :: string
  AddressType :: string
  Endpoints :: "Endpoint list"
  es_Ports :: "EndpointPort list"

definition AddressTypeFQDN :: string where
  "AddressTypeFQDN = ''FQDN''"

record Port =
  sp_Name :: string
  sp_Port :: int

record ServiceAttributes =
  attr_Name :: string
  attr_Namespace :: string
  Labels :: "(string \<rightharpoonup> string) option"

record Service =
  Hostname :: string
  Attributes :: ServiceAttributes
  svc_Ports :: "Port list"

record 'md ServiceInstance =
  si_Endpoint :: "'md IstioEndpoint"
  si_ServicePort :: Port
  si_Service :: Service

text \<open>
  What the file takes from outside: the two feature settings, the controller's service
  lookup, the export policy, the pod lookup \<^verbatim>\<open>getPod\<close> (its result is the pod and
  whether one was expected), the endpoint builder (\<^verbatim>\<open>NewEndpointBuilder\<close> followed by
  \<^verbatim>\<open>buildIstioEndpoint\<close>), the slice lister (an error or the slices of a namespace
  that carry a service's name) and the service's port lookup by number. They are fields
  of one record, and every theorem holds for every value of them.
\<close>

record ('pod, 'pol, 'md) controller =
  PersistentSessionLabel :: string
  SendUnhealthyEndpoints :: bool
  GetService :: "string \<Rightarrow> Service option"
  EndpointDiscoverabilityPolicy :: "Service option \<Rightarrow> 'pol"
  getPod :: "string \<Rightarrow> string \<times> string \<Rightarrow> ObjectReference option \<Rightarrow> string \<Rightarrow> 'pod option \<times> bool"
  buildIstioEndpoint :: "'pod option \<Rightarrow> string \<Rightarrow> 32 word \<Rightarrow> string \<Rightarrow> 'pol \<Rightarrow> 'md IstioEndpoint"
  listSlices :: "string \<Rightarrow> string \<Rightarrow> string + EndpointSlice list"
  GetByPort :: "Port list \<Rightarrow> int \<Rightarrow> Port option"

subsection \<open>The processor \<^verbatim>\<open>updateEndpointCacheForSlice\<close>\<close>

text \<open>
  The three nested loops, innermost first. Each takes the list \<^verbatim>\<open>endpoints\<close> built so
  far and returns it extended; \<^verbatim>\<open>continue\<close> goes on with the list unchanged.
\<close>

fun portsLoop ::
  "('pod, 'pol, 'md) controller \<Rightarrow> 'pod option \<Rightarrow> string \<Rightarrow> 'pol \<Rightarrow> bool \<Rightarrow> bool
     \<Rightarrow> EndpointPort list \<Rightarrow> 'md IstioEndpoint list \<Rightarrow> 'md IstioEndpoint list" where
  "portsLoop c pod a pol ready draining [] endpoints = endpoints"
| "portsLoop c pod a pol ready draining (prt # ports) endpoints =
     (let portNum = (case ep_Port prt of Some n \<Rightarrow> n | None \<Rightarrow> 0);
          portName = (case ep_Name prt of Some s \<Rightarrow> s | None \<Rightarrow> '''');
          istioEndpoint = buildIstioEndpoint c pod a portNum portName pol;
          istioEndpoint' = istioEndpoint\<lparr>HealthStatus :=
            (if ready then Healthy else if draining then Draining else UnHealthy)\<rparr>
      in portsLoop c pod a pol ready draining ports (endpoints @ [istioEndpoint']))"

fun addressesLoop ::
  "('pod, 'pol, 'md) controller \<Rightarrow> EndpointSlice \<Rightarrow> Endpoint \<Rightarrow> string \<Rightarrow> 'pol \<Rightarrow> bool \<Rightarrow> bool
     \<Rightarrow> string list \<Rightarrow> 'md IstioEndpoint list \<Rightarrow> 'md IstioEndpoint list" where
  "addressesLoop c slc e hostName pol ready draining [] endpoints = endpoints"
| "addressesLoop c slc e hostName pol ready draining (a # addrs) endpoints =
     (case getPod c a (es_Name slc, es_Namespace slc) (TargetRef e) hostName of
        (pod, expectedPod) \<Rightarrow>
          if pod = None \<and> expectedPod
          then addressesLoop c slc e hostName pol ready draining addrs endpoints
          else addressesLoop c slc e hostName pol ready draining addrs
                 (portsLoop c pod a pol ready draining (es_Ports slc) endpoints))"

fun endpointsLoop ::
  "('pod, 'pol, 'md) controller \<Rightarrow> EndpointSlice \<Rightarrow> string \<Rightarrow> Service option \<Rightarrow> 'pol
     \<Rightarrow> Endpoint list \<Rightarrow> 'md IstioEndpoint list \<Rightarrow> 'md IstioEndpoint list" where
  "endpointsLoop c slc hostName svc pol [] endpoints = endpoints"
| "endpointsLoop c slc hostName svc pol (e # es) endpoints =
     (let draining =
            (PersistentSessionLabel c \<noteq> '''' \<and>
             (case svc of
                None \<Rightarrow> False
              | Some s \<Rightarrow>
                  (case Labels (Attributes s) of
                     None \<Rightarrow> False
                   | Some ls \<Rightarrow>
                       (case ls (PersistentSessionLabel c) of None \<Rightarrow> '''' | Some v \<Rightarrow> v) \<noteq> '''' \<and>
                       (case Ready (Conditions e) of
                          None \<Rightarrow> False
                        | Some r \<Rightarrow>
                            (case Serving (Conditions e) of
                               None \<Rightarrow> False
                             | Some sv \<Rightarrow> sv \<and> \<not> r)))))
      in if \<not> SendUnhealthyEndpoints c \<and> \<not> draining \<and> Ready (Conditions e) = Some False
         then endpointsLoop c slc hostName svc pol es endpoints
         else
           (let ready = (Ready (Conditions e) = None \<or> Ready (Conditions e) = Some True)
            in endpointsLoop c slc hostName svc pol es
                 (addressesLoop c slc e hostName pol ready draining (Addresses e) endpoints)))"

text \<open>
  The processor on a cache: a slice of address type FQDN returns at once, every other
  slice ends in \<^verbatim>\<open>Update\<close> under the slice's name.
\<close>

definition updateEndpointCacheForSlice ::
  "('pod, 'pol, 'md) controller \<Rightarrow> 'md endpointSliceCache \<Rightarrow> string \<Rightarrow> EndpointSlice
     \<Rightarrow> 'md endpointSliceCache" where
  "updateEndpointCacheForSlice c cache hostName slc =
     (if AddressType slc = AddressTypeFQDN then cache
      else
        (let svc = GetService c hostName;
             discoverabilityPolicy = EndpointDiscoverabilityPolicy c svc;
             endpoints = endpointsLoop c slc hostName svc discoverabilityPolicy (Endpoints slc) []
         in Update cache hostName (es_Name slc) endpoints))"

subsection \<open>The point query \<^verbatim>\<open>InstancesByPort\<close>\<close>

text \<open>
  The method has a receiver \<^verbatim>\<open>esc\<close> and an argument \<^verbatim>\<open>c\<close>. The slices are listed
  by \<^verbatim>\<open>esc\<close> and the endpoint builder is made from \<^verbatim>\<open>esc.c\<close>; the export policy
  and the pod lookup are those of \<^verbatim>\<open>c\<close>. The model keeps the two apart: \<open>esc\<close> is
  the record read for the receiver, \<open>c\<close> the one read for the argument. The four
  nested loops, innermost first, extend the list \<^verbatim>\<open>out\<close>.
\<close>

fun instancePortsLoop ::
  "('pod, 'pol, 'md) controller \<Rightarrow> 'pod option \<Rightarrow> string \<Rightarrow> Service \<Rightarrow> Port \<Rightarrow> 'pol
     \<Rightarrow> EndpointPort list \<Rightarrow> 'md ServiceInstance list \<Rightarrow> 'md ServiceInstance list" where
  "instancePortsLoop esc pod a svc svcPort pol [] out = out"
| "instancePortsLoop esc pod a svc svcPort pol (prt # ports) out =
     (let portNum = (case ep_Port prt of Some n \<Rightarrow> n | None \<Rightarrow> 0)
      in if ep_Name prt = None \<or> ep_Name prt = Some (sp_Name svcPort)
         then instancePortsLoop esc pod a svc svcPort pol ports
                (out @ [\<lparr>si_Endpoint = buildIstioEndpoint esc pod a portNum (sp_Name svcPort) pol,
                         si_ServicePort = svcPort, si_Service = svc\<rparr>])
         else instancePortsLoop esc pod a svc svcPort pol ports out)"

fun instanceAddressesLoop ::
  "('pod, 'pol, 'md) controller \<Rightarrow> ('pod, 'pol, 'md) controller \<Rightarrow> EndpointSlice \<Rightarrow> Endpoint
     \<Rightarrow> Service \<Rightarrow> Port \<Rightarrow> 'pol
     \<Rightarrow> string list \<Rightarrow> 'md ServiceInstance list \<Rightarrow> 'md ServiceInstance list" where
  "instanceAddressesLoop esc c slc e svc svcPort pol [] out = out"
| "instanceAddressesLoop esc c slc e svc svcPort pol (a # addrs) out =
     (case getPod c a (es_Name slc, es_Namespace slc) (TargetRef e) (Hostname svc) of
        (pod, expectedPod) \<Rightarrow>
          if pod = None \<and> expectedPod
          then instanceAddressesLoop esc c slc e svc svcPort pol addrs out
          else instanceAddressesLoop esc c slc e svc svcPort pol addrs
                 (instancePortsLoop esc pod a svc svcPort pol (es_Ports slc) out))"

fun instanceEndpointsLoop ::
  "('pod, 'pol, 'md) controller \<Rightarrow> ('pod, 'pol, 'md) controller \<Rightarrow> EndpointSlice
     \<Rightarrow> Service \<Rightarrow> Port \<Rightarrow> 'pol
     \<Rightarrow> Endpoint list \<Rightarrow> 'md ServiceInstance list \<Rightarrow> 'md ServiceInstance list" where
  "instanceEndpointsLoop esc c slc svc svcPort pol [] out = out"
| "instanceEndpointsLoop esc c slc svc svcPort pol (e # es) out =
     instanceEndpointsLoop esc c slc svc svcPort pol es
       (instanceAddressesLoop esc c slc e svc svcPort pol (Addresses e) out)"

fun instanceSlicesLoop ::
  "('pod, 'pol, 'md) controller \<Rightarrow> ('pod, 'pol, 'md) controller \<Rightarrow> Service \<Rightarrow> Port \<Rightarrow> 'pol
     \<Rightarrow> EndpointSlice list \<Rightarrow> 'md ServiceInstance list \<Rightarrow> 'md ServiceInstance list" where
  "instanceSlicesLoop esc c svc svcPort pol [] out = out"
| "instanceSlicesLoop esc c svc svcPort pol (slc # slices) out =
     (if AddressType slc = AddressTypeFQDN
      then instanceSlicesLoop esc c svc svcPort pol slices out
      else instanceSlicesLoop esc c svc svcPort pol slices
             (instanceEndpointsLoop esc c slc svc svcPort pol (Endpoints slc) out))"

text \<open>
  A listing error, an empty listing and a port number the service does not declare each
  return \<^verbatim>\<open>nil\<close>, the empty list.
\<close>

definition InstancesByPort ::
  "('pod, 'pol, 'md) controller \<Rightarrow> ('pod, 'pol, 'md) controller \<Rightarrow> Service \<Rightarrow> int
     \<Rightarrow> 'md ServiceInstance list" where
  "InstancesByPort esc c svc reqSvcPort =
     (case listSlices esc (attr_Namespace (Attributes svc)) (attr_Name (Attributes svc)) of
        Inl err \<Rightarrow> []
      | Inr slices \<Rightarrow>
          if length slices = 0 then []
          else
            (case GetByPort c (svc_Ports svc) reqSvcPort of
               None \<Rightarrow> []
             | Some svcPort \<Rightarrow>
                 (let discoverabilityPolicy = EndpointDiscoverabilityPolicy c (Some svc)
                  in instanceSlicesLoop esc c svc svcPort discoverabilityPolicy slices [])))"

subsection \<open>The processing steps as the specification words them\<close>

text \<open>
  \<open>ready\<close>: the readiness condition is true or absent.
\<close>

definition spec_ready :: "Endpoint \<Rightarrow> bool" where
  "spec_ready e = (Ready (Conditions e) = Some True \<or> Ready (Conditions e) = None)"

text \<open>
  The service carries the label with a non-empty value.
\<close>

definition spec_carriesLabel :: "Service option \<Rightarrow> string \<Rightarrow> bool" where
  "spec_carriesLabel svc l =
     (case svc of
        None \<Rightarrow> False
      | Some s \<Rightarrow>
          (case Labels (Attributes s) of
             None \<Rightarrow> False
           | Some ls \<Rightarrow> (case ls l of None \<Rightarrow> False | Some v \<Rightarrow> v \<noteq> '''')))"

text \<open>
  \<open>draining\<close>: the persistent-session feature is enabled (its label name is not empty),
  the service carries the persistent-session label, the serving condition is true and the
  readiness condition is explicitly false.
\<close>

definition spec_draining :: "('pod, 'pol, 'md) controller \<Rightarrow> Service option \<Rightarrow> Endpoint \<Rightarrow> bool" where
  "spec_draining c svc e =
     (PersistentSessionLabel c \<noteq> '''' \<and>
      spec_carriesLabel svc (PersistentSessionLabel c) \<and>
      Serving (Conditions e) = Some True \<and>
      Ready (Conditions e) = Some False)"

text \<open>
  The decision table: the status of an included entry, \<open>None\<close> for an excluded one.
\<close>

definition spec_outcome ::
  "('pod, 'pol, 'md) controller \<Rightarrow> Service option \<Rightarrow> Endpoint \<Rightarrow> HealthStatus option" where
  "spec_outcome c svc e =
     (if spec_ready e then Some Healthy
      else if spec_draining c svc e then Some Draining
      else if SendUnhealthyEndpoints c then Some UnHealthy
      else None)"

text \<open>
  The endpoints of an included entry: for each address whose pod is found or not expected,
  and each port the slice declares, one endpoint with the given status. A port without a
  number is built with the number 0 and a port without a name with the empty name, as the
  processor does.
\<close>

definition entryEndpoints ::
  "('pod, 'pol, 'md) controller \<Rightarrow> EndpointSlice \<Rightarrow> string \<Rightarrow> 'pol \<Rightarrow> Endpoint \<Rightarrow> HealthStatus
     \<Rightarrow> 'md IstioEndpoint list" where
  "entryEndpoints c slc hostName pol e st =
     concat (map (\<lambda>a.
       (case getPod c a (es_Name slc, es_Namespace slc) (TargetRef e) hostName of
          (pod, expectedPod) \<Rightarrow>
            if pod = None \<and> expectedPod then []
            else map (\<lambda>prt.
                   (buildIstioEndpoint c pod a
                      (case ep_Port prt of Some n \<Rightarrow> n | None \<Rightarrow> 0)
                      (case ep_Name prt of Some s \<Rightarrow> s | None \<Rightarrow> '''') pol)
                   \<lparr>HealthStatus := st\<rparr>) (es_Ports slc))) (Addresses e))"

text \<open>
  The list the specification has the processor write for a slice: the endpoints of every
  entry the decision table includes, with the table's status.
\<close>

definition spec_sliceEndpoints ::
  "('pod, 'pol, 'md) controller \<Rightarrow> EndpointSlice \<Rightarrow> string \<Rightarrow> 'md IstioEndpoint list" where
  "spec_sliceEndpoints c slc hostName =
     concat (map (\<lambda>e.
       (case spec_outcome c (GetService c hostName) e of
          None \<Rightarrow> []
        | Some st \<Rightarrow>
            entryEndpoints c slc hostName
              (EndpointDiscoverabilityPolicy c (GetService c hostName)) e st)) (Endpoints slc))"

text \<open>
  The instances the specification has the point query return for one slice: for each
  entry, each address whose pod is found or not expected, and each port of the slice that
  has no name or the name of the service port, one instance.
\<close>

definition spec_sliceInstances ::
  "('pod, 'pol, 'md) controller \<Rightarrow> ('pod, 'pol, 'md) controller \<Rightarrow> Service \<Rightarrow> Port
     \<Rightarrow> EndpointSlice \<Rightarrow> 'md ServiceInstance list" where
  "spec_sliceInstances esc c svc svcPort slc =
     concat (map (\<lambda>e. concat (map (\<lambda>a.
       (case getPod c a (es_Name slc, es_Namespace slc) (TargetRef e) (Hostname svc) of
          (pod, expectedPod) \<Rightarrow>
            if pod = None \<and> expectedPod then []
            else map (\<lambda>prt.
                   \<lparr>si_Endpoint = buildIstioEndpoint esc pod a
                      (case ep_Port prt of Some n \<Rightarrow> n | None \<Rightarrow> 0) (sp_Name svcPort)
                      (EndpointDiscoverabilityPolicy c (Some svc)),
                    si_ServicePort = svcPort, si_Service = svc\<rparr>)
                 (filter (\<lambda>prt. ep_Name prt = None \<or> ep_Name prt = Some (sp_Name svcPort))
                    (es_Ports slc)))) (Addresses e))) (Endpoints slc))"

subsection \<open>Example values\<close>

definition epA :: "unit IstioEndpoint" where
  "epA = \<lparr>Address = ''10.0.0.1'', ServicePortName = ''http'', EndpointPort = 8080,
          HealthStatus = Healthy, Enrichment = ()\<rparr>"

definition epB :: "unit IstioEndpoint" where
  "epB = \<lparr>Address = ''10.0.0.1'', ServicePortName = ''http'', EndpointPort = 8080,
          HealthStatus = Draining, Enrichment = ()\<rparr>"

definition epC :: "unit IstioEndpoint" where
  "epC = \<lparr>Address = ''10.0.0.2'', ServicePortName = ''http'', EndpointPort = 8080,
          HealthStatus = Healthy, Enrichment = ()\<rparr>"

definition mkEndpoint :: "string \<Rightarrow> string \<Rightarrow> 32 word \<Rightarrow> HealthStatus \<Rightarrow> unit IstioEndpoint" where
  "mkEndpoint a name n st =
     \<lparr>Address = a, ServicePortName = name, EndpointPort = n, HealthStatus = st, Enrichment = ()\<rparr>"

definition exampleService :: Service where
  "exampleService =
     \<lparr>Hostname = ''svc'',
      Attributes = \<lparr>attr_Name = ''svc'', attr_Namespace = ''default'',
                    Labels = Some [''istio.io/persistent-session'' \<mapsto> ''cookie'']\<rparr>,
      svc_Ports = [\<lparr>sp_Name = ''http'', sp_Port = 80\<rparr>]\<rparr>"

definition plainService :: Service where
  "plainService =
     \<lparr>Hostname = ''plain'',
      Attributes = \<lparr>attr_Name = ''plain'', attr_Namespace = ''default'', Labels = None\<rparr>,
      svc_Ports = [\<lparr>sp_Name = ''http'', sp_Port = 80\<rparr>]\<rparr>"

definition externalService :: Service where
  "externalService =
     \<lparr>Hostname = ''ext'',
      Attributes = \<lparr>attr_Name = ''ext'', attr_Namespace = ''external'', Labels = None\<rparr>,
      svc_Ports = [\<lparr>sp_Name = ''http'', sp_Port = 80\<rparr>]\<rparr>"

definition unlistedService :: Service where
  "unlistedService =
     \<lparr>Hostname = ''gone'',
      Attributes = \<lparr>attr_Name = ''gone'', attr_Namespace = ''missing'', Labels = None\<rparr>,
      svc_Ports = [\<lparr>sp_Name = ''http'', sp_Port = 80\<rparr>]\<rparr>"

definition entry :: "bool option \<Rightarrow> bool option \<Rightarrow> string list \<Rightarrow> Endpoint" where
  "entry r s addrs = \<lparr>Addresses = addrs, Conditions = \<lparr>Ready = r, Serving = s\<rparr>, TargetRef = None\<rparr>"

definition httpPort :: EndpointPort where
  "httpPort = \<lparr>ep_Name = Some ''http'', ep_Port = Some 8080\<rparr>"

definition barePort :: EndpointPort where
  "barePort = \<lparr>ep_Name = None, ep_Port = None\<rparr>"

definition sliceHealth :: EndpointSlice where
  "sliceHealth =
     \<lparr>es_Name = ''p1'', es_Namespace = ''default'', AddressType = ''IPv4'',
      Endpoints = [entry (Some True) (Some True) [''10.0.0.1''],
                   entry None None [''10.0.0.2''],
                   entry (Some False) (Some True) [''10.0.0.3''],
                   entry (Some False) (Some False) [''10.0.0.4'']],
      es_Ports = [httpPort]\<rparr>"

definition sliceFQDN :: EndpointSlice where
  "sliceFQDN =
     \<lparr>es_Name = ''p1'', es_Namespace = ''external'', AddressType = ''FQDN'',
      Endpoints = [entry (Some True) (Some True) [''example.com'']],
      es_Ports = [httpPort]\<rparr>"

definition sliceEmpty :: EndpointSlice where
  "sliceEmpty =
     \<lparr>es_Name = ''p1'', es_Namespace = ''default'', AddressType = ''IPv4'',
      Endpoints = [], es_Ports = [httpPort]\<rparr>"

definition slicePorts :: EndpointSlice where
  "slicePorts =
     \<lparr>es_Name = ''p1'', es_Namespace = ''default'', AddressType = ''IPv4'',
      Endpoints = [entry (Some True) (Some True) [''10.0.0.1'']],
      es_Ports = [httpPort, barePort]\<rparr>"

definition sliceA :: EndpointSlice where
  "sliceA =
     \<lparr>es_Name = ''a'', es_Namespace = ''default'', AddressType = ''IPv4'',
      Endpoints = [entry (Some True) (Some True) [''10.0.0.1'', ''10.0.0.9'']],
      es_Ports = [httpPort, \<lparr>ep_Name = Some ''grpc'', ep_Port = Some 9090\<rparr>,
                  \<lparr>ep_Name = None, ep_Port = Some 7070\<rparr>]\<rparr>"

definition sliceB :: EndpointSlice where
  "sliceB =
     \<lparr>es_Name = ''b'', es_Namespace = ''default'', AddressType = ''IPv4'',
      Endpoints = [entry (Some False) None [''10.0.0.1'']],
      es_Ports = [httpPort]\<rparr>"

text \<open>
  A controller for the examples: the pod of \<^verbatim>\<open>10.0.0.9\<close> is expected and missing, no
  other address expects a pod; the builder copies its arguments into the endpoint; the
  namespace \<^verbatim>\<open>default\<close> lists three slices, the namespace \<^verbatim>\<open>external\<close> one slice of
  address type FQDN, every other listing fails; a port is looked up by its number.
\<close>

definition exampleController :: "bool \<Rightarrow> (unit, unit, unit) controller" where
  "exampleController send =
     \<lparr>PersistentSessionLabel = ''istio.io/persistent-session'',
      SendUnhealthyEndpoints = send,
      GetService = (\<lambda>h. if h = ''svc'' then Some exampleService
                        else if h = ''plain'' then Some plainService else None),
      EndpointDiscoverabilityPolicy = (\<lambda>svc. ()),
      getPod = (\<lambda>a meta ref h. if a = ''10.0.0.9'' then (None, True) else (None, False)),
      buildIstioEndpoint = (\<lambda>pod a n name pol. mkEndpoint a name n Healthy),
      listSlices = (\<lambda>ns name. if ns = ''default'' then Inr [sliceA, sliceFQDN, sliceB]
                               else if ns = ''external'' then Inr [sliceFQDN]
                               else Inl ''not found''),
      GetByPort = (\<lambda>ports n. find (\<lambda>p. sp_Port p = n) ports)\<rparr>"

subsection \<open>Facts about the cache\<close>

lemma slicesOf_deleteSlice:
  "slicesOf (deleteSlice e h p) h' = (if h' = h then (slicesOf e h)(p := None) else slicesOf e h')"
  by (auto simp: slicesOf_def deleteSlice_def split: option.splits)

lemma Update_eq: "Update e h p eps = e(h \<mapsto> (slicesOf e h)(p \<mapsto> eps))"
  by (auto simp: Update_def Let_def slicesOf_def deleteSlice_def split: option.splits)

lemma slicesOf_Update:
  "slicesOf (Update e h p eps) h' = (if h' = h then (slicesOf e h)(p \<mapsto> eps) else slicesOf e h')"
  by (simp add: Update_eq slicesOf_def)

lemma slicesOf_upd:
  "slicesOf (e(h := v)) h' =
     (if h' = h then (case v of None \<Rightarrow> Map.empty | Some m \<Rightarrow> m) else slicesOf e h')"
  by (simp add: slicesOf_def)

lemma Delete_eq:
  "Delete e h p =
     (if dom (slicesOf e h) - {p} = {} then e(h := None) else e(h \<mapsto> (slicesOf e h)(p := None)))"
proof (cases "e h")
  case None
  then show ?thesis
    by (simp add: Delete_def deleteSlice_def slicesOf_def)
next
  case (Some m)
  then show ?thesis
    by (simp add: Delete_def deleteSlice_def slicesOf_def del: dom_eq_empty_conv)
qed

lemma slicesOf_Delete:
  "slicesOf (Delete e h p) h' = (if h' = h then (slicesOf e h)(p := None) else slicesOf e h')"
proof (cases "dom (slicesOf e h) - {p} = {}")
  case True
  then have "dom ((slicesOf e h)(p := None)) = {}" by simp
  then have "(slicesOf e h)(p := None) = Map.empty" by (simp only: dom_eq_empty_conv)
  with True show ?thesis by (simp add: Delete_eq slicesOf_upd)
next
  case False
  then show ?thesis by (simp add: Delete_eq slicesOf_upd)
qed

lemma Has_Update: "Has (Update e h p eps) h' = (h' = h \<or> Has e h')"
  by (simp add: Update_eq Has_def)

lemma Has_Delete:
  "Has (Delete e h p) h' = (if h' = h then dom (slicesOf e h) - {p} \<noteq> {} else Has e h')"
  by (simp add: Delete_eq Has_def)

lemma GetEps_Cons:
  "GetEps (ep # eps) (found, acc) =
     (if keyOf ep \<in> found then GetEps eps (found, acc)
      else GetEps eps (insert (keyOf ep) found, acc @ [ep]))"
  by (simp add: keyOf_def Let_def)

lemma GetEps_fst: "fst (GetEps eps (found, acc)) = found \<union> keyOf ` set eps"
  by (induction eps arbitrary: found acc) (auto simp: GetEps_Cons simp del: GetEps.simps(2))

lemma GetEps_snd_subset: "set (snd (GetEps eps (found, acc))) \<subseteq> set acc \<union> set eps"
proof (induction eps arbitrary: found acc)
  case Nil
  then show ?case by simp
next
  case (Cons ep eps)
  show ?case
    using Cons.IH [of found acc] Cons.IH [of "insert (keyOf ep) found" "acc @ [ep]"]
    by (auto simp: GetEps_Cons simp del: GetEps.simps(2))
qed

lemma GetEps_inv:
  "found = keyOf ` set acc \<Longrightarrow> distinct (map keyOf acc) \<Longrightarrow>
   fst (GetEps eps (found, acc)) = keyOf ` set (snd (GetEps eps (found, acc))) \<and>
   distinct (map keyOf (snd (GetEps eps (found, acc))))"
proof (induction eps arbitrary: found acc)
  case Nil
  then show ?case by simp
next
  case (Cons ep eps)
  show ?case
  proof (cases "keyOf ep \<in> found")
    case True
    with Cons.IH [OF Cons.prems] show ?thesis
      by (simp add: GetEps_Cons del: GetEps.simps(2))
  next
    case False
    have a: "insert (keyOf ep) found = keyOf ` set (acc @ [ep])"
      using Cons.prems(1) by auto
    have b: "distinct (map keyOf (acc @ [ep]))"
      using Cons.prems False by auto
    show ?thesis
      using Cons.IH [OF a b] False
      by (simp add: GetEps_Cons del: GetEps.simps(2))
  qed
qed

lemma GetSlices_fst:
  "fst (GetSlices m ks st) =
     fst st \<union> keyOf ` (\<Union>k\<in>set ks. set (case m k of None \<Rightarrow> [] | Some eps \<Rightarrow> eps))"
proof (induction ks arbitrary: st)
  case Nil
  then show ?case by simp
next
  case (Cons k ks)
  obtain found acc where st: "st = (found, acc)" by (cases st)
  show ?case
    unfolding GetSlices.simps Cons.IH st GetEps_fst by auto
qed

lemma GetSlices_snd_subset:
  "set (snd (GetSlices m ks st)) \<subseteq>
     set (snd st) \<union> (\<Union>k\<in>set ks. set (case m k of None \<Rightarrow> [] | Some eps \<Rightarrow> eps))"
proof (induction ks arbitrary: st)
  case Nil
  then show ?case by simp
next
  case (Cons k ks)
  obtain found acc where st: "st = (found, acc)" by (cases st)
  let ?eps = "case m k of None \<Rightarrow> [] | Some eps \<Rightarrow> eps"
  have "set (snd (GetSlices m ks (GetEps ?eps st))) \<subseteq>
          set (snd (GetEps ?eps st)) \<union> (\<Union>k\<in>set ks. set (case m k of None \<Rightarrow> [] | Some eps \<Rightarrow> eps))"
    by (rule Cons.IH)
  moreover have "set (snd (GetEps ?eps st)) \<subseteq> set (snd st) \<union> set ?eps"
    unfolding st using GetEps_snd_subset [of ?eps found acc] by simp
  ultimately show ?case
    unfolding GetSlices.simps by auto
qed

lemma GetSlices_inv:
  "fst st = keyOf ` set (snd st) \<Longrightarrow> distinct (map keyOf (snd st)) \<Longrightarrow>
   fst (GetSlices m ks st) = keyOf ` set (snd (GetSlices m ks st)) \<and>
   distinct (map keyOf (snd (GetSlices m ks st)))"
proof (induction ks arbitrary: st)
  case Nil
  then show ?case by simp
next
  case (Cons k ks)
  obtain found acc where st: "st = (found, acc)" by (cases st)
  let ?eps = "case m k of None \<Rightarrow> [] | Some eps \<Rightarrow> eps"
  have "fst (GetEps ?eps st) = keyOf ` set (snd (GetEps ?eps st)) \<and>
        distinct (map keyOf (snd (GetEps ?eps st)))"
    unfolding st using Cons.prems GetEps_inv [of found acc ?eps] by (simp add: st)
  then show ?case
    unfolding GetSlices.simps using Cons.IH by blast
qed

lemma slices_union_all:
  "set ks = dom m \<Longrightarrow>
   (\<Union>k\<in>set ks. set (case m k of None \<Rightarrow> [] | Some eps \<Rightarrow> eps)) = contributed m"
  unfolding contributed_def by (fastforce split: option.splits)

lemma slices_union_subset:
  "(\<Union>k\<in>set ks. set (case m k of None \<Rightarrow> [] | Some eps \<Rightarrow> eps)) \<subseteq> contributed m"
proof
  fix ep
  assume "ep \<in> (\<Union>k\<in>set ks. set (case m k of None \<Rightarrow> [] | Some eps \<Rightarrow> eps))"
  then obtain k where k: "ep \<in> set (case m k of None \<Rightarrow> [] | Some eps \<Rightarrow> eps)"
    by blast
  then obtain eps where "m k = Some eps" and "ep \<in> set eps"
    by (cases "m k") auto
  then show "ep \<in> contributed m"
    unfolding contributed_def by blast
qed

lemma Get_distinct_keys: "distinct (map keyOf (Get e h ks))"
  using GetSlices_inv [of "({}, [])" "slicesOf e h" ks] by (simp add: Get_def)

lemma Get_subset: "set (Get e h ks) \<subseteq> contributed (slicesOf e h)"
  using GetSlices_snd_subset [of "slicesOf e h" ks "({}, [])"] slices_union_subset [where ks = ks and m = "slicesOf e h"]
  unfolding Get_def by simp

lemma Get_keys:
  "rangeOrder (slicesOf e h) ks \<Longrightarrow> keyOf ` set (Get e h ks) = keyOf ` contributed (slicesOf e h)"
  using GetSlices_inv [of "({}, [])" "slicesOf e h" ks] GetSlices_fst [of "slicesOf e h" ks "({}, [])"]
    slices_union_all [where ks = ks and m = "slicesOf e h"]
  unfolding Get_def rangeOrder_def by simp

lemma one_per_key:
  "distinct (map f xs) \<Longrightarrow> x \<in> set xs \<Longrightarrow> length (filter (\<lambda>y. f y = f x) xs) = 1"
proof (induction xs)
  case Nil
  then show ?case by simp
next
  case (Cons a xs)
  show ?case
  proof (cases "f a = f x")
    case True
    from Cons.prems(1) have "f a \<notin> f ` set xs" by simp
    with True have "\<forall>y\<in>set xs. f y \<noteq> f x" by (metis image_eqI)
    then have "filter (\<lambda>y. f y = f x) xs = []" by (simp add: filter_empty_conv)
    with True show ?thesis by simp
  next
    case False
    with Cons.prems have "x \<in> set xs" by auto
    with Cons.IH Cons.prems(1) False show ?thesis by simp
  qed
qed

lemma Get_cong: "slicesOf e h = slicesOf e' h' \<Longrightarrow> Get e h ks = Get e' h' ks"
  by (simp add: Get_def)

lemma contributed_upd:
  "contributed (m(p \<mapsto> eps)) = set eps \<union> contributed (m(p := None))"
  unfolding contributed_def by (auto split: if_splits)

lemma contributed_empty: "contributed Map.empty = {}"
  by (simp add: contributed_def)

lemma GetSlices_cong:
  "(\<And>k. k \<in> set ks \<Longrightarrow> (case m k of None \<Rightarrow> [] | Some eps \<Rightarrow> eps) = (case m' k of None \<Rightarrow> [] | Some eps \<Rightarrow> eps))
   \<Longrightarrow> GetSlices m ks st = GetSlices m' ks st"
  by (induction ks arbitrary: st) simp_all

lemma reachable_nonempty:
  "reachable e \<Longrightarrow> e h = Some m \<Longrightarrow> dom m \<noteq> {}"
proof (induction arbitrary: h m rule: reachable.induct)
  case reachable_new
  then show ?case by (simp add: newEndpointSliceCache_def)
next
  case (reachable_Update e hostname sliceName endpoints)
  then show ?case
    by (auto simp: Update_eq split: if_splits)
next
  case (reachable_Delete e hostname sliceName)
  show ?case
  proof (cases "h = hostname")
    case True
    with reachable_Delete.prems have m: "m = (slicesOf e hostname)(sliceName := None)"
      and ne: "dom (slicesOf e hostname) - {sliceName} \<noteq> {}"
      by (auto simp: Delete_eq split: if_splits)
    have "dom ((slicesOf e hostname)(sliceName := None)) = dom (slicesOf e hostname) - {sliceName}"
      by simp
    with m ne show ?thesis by metis
  next
    case False
    with reachable_Delete.prems have "e h = Some m"
      by (auto simp: Delete_eq split: if_splits)
    then show ?thesis by (rule reachable_Delete.IH)
  qed
qed

lemma slicesOf_new: "slicesOf newEndpointSliceCache h = Map.empty"
  by (simp add: slicesOf_def newEndpointSliceCache_def)

lemma Has_new: "\<not> Has newEndpointSliceCache h"
  by (simp add: Has_def newEndpointSliceCache_def)

lemmas ev = Get_def slicesOf_Update slicesOf_Delete slicesOf_new Has_Update Has_Delete Has_new
  rangeOrder_def epA_def epB_def epC_def keyOf_def

subsection \<open>The claims about the cache\<close>

text \<open>
  Claim C2. For any service, the aggregated view \<^verbatim>\<open>Get\<close> holds exactly one endpoint
  for each (address, service port name) pair that any slice of the service contributes:
  the keys of the result are pairwise distinct, every endpoint of the result is contributed
  by some slice, and every contributed endpoint has exactly one endpoint with its key in
  the result. This holds for every order \<open>ks\<close> in which the loop may visit the slices.
\<close>

theorem Get_one_per_key:
  assumes "rangeOrder (slicesOf e s) ks"
  shows "distinct (map keyOf (Get e s ks)) \<and>
    set (Get e s ks) \<subseteq> contributed (slicesOf e s) \<and>
    (\<forall>ep \<in> contributed (slicesOf e s).
       length (filter (\<lambda>x. keyOf x = keyOf ep) (Get e s ks)) = 1)"
proof -
  have d: "distinct (map keyOf (Get e s ks))"
    by (rule Get_distinct_keys)
  have k: "keyOf ` set (Get e s ks) = keyOf ` contributed (slicesOf e s)"
    using assms by (rule Get_keys)
  have "length (filter (\<lambda>x. keyOf x = keyOf ep) (Get e s ks)) = 1"
    if "ep \<in> contributed (slicesOf e s)" for ep
  proof -
    from that k have "keyOf ep \<in> keyOf ` set (Get e s ks)" by blast
    then obtain x where x: "x \<in> set (Get e s ks)" and kx: "keyOf x = keyOf ep" by auto
    from one_per_key [OF d x] kx show ?thesis by simp
  qed
  with d Get_subset [of e s ks] show ?thesis by blast
qed

theorem Get_one_per_key_witness:
  "rangeOrder (slicesOf (Update (Update newEndpointSliceCache ''svc'' ''p1'' [epA])
       ''svc'' ''p2'' [epB, epC]) ''svc'') [''p1'', ''p2''] \<and>
   Get (Update (Update newEndpointSliceCache ''svc'' ''p1'' [epA])
       ''svc'' ''p2'' [epB, epC]) ''svc'' [''p1'', ''p2''] = [epA, epC] \<and>
   length (filter (\<lambda>x. keyOf x = keyOf epB) (Get (Update (Update newEndpointSliceCache ''svc'' ''p1'' [epA])
       ''svc'' ''p2'' [epB, epC]) ''svc'' [''p1'', ''p2''])) = 1 \<and>
   rangeOrder (slicesOf (Update (Update newEndpointSliceCache ''svc'' ''p1'' [epA])
       ''svc'' ''p2'' [epB, epC]) ''svc'') [''p2'', ''p1''] \<and>
   Get (Update (Update newEndpointSliceCache ''svc'' ''p1'' [epA])
       ''svc'' ''p2'' [epB, epC]) ''svc'' [''p2'', ''p1''] = [epB, epC]"
proof -
  have r1: "rangeOrder (slicesOf (Update (Update newEndpointSliceCache ''svc'' ''p1'' [epA])
       ''svc'' ''p2'' [epB, epC]) ''svc'') [''p1'', ''p2'']"
    by (auto simp: ev)
  have r2: "rangeOrder (slicesOf (Update (Update newEndpointSliceCache ''svc'' ''p1'' [epA])
       ''svc'' ''p2'' [epB, epC]) ''svc'') [''p2'', ''p1'']"
    by (auto simp: ev)
  show ?thesis
    using r1 r2 Get_one_per_key [OF r1] Get_one_per_key [OF r2]
    by (simp add: ev)
qed

text \<open>
  Claim C3. \<^verbatim>\<open>Update\<close> replaces: after \<open>Update s p E1\<close> followed by \<open>Update s p E2\<close>
  the cache is the one that \<open>Update s p E2\<close> alone gives, the slice \<open>p\<close> holds \<open>E2\<close>, and
  the aggregated view of \<open>s\<close> is drawn from \<open>E2\<close> and the slices other than \<open>p\<close> only,
  with exactly their keys: nothing of \<open>E1\<close> survives unless \<open>E2\<close> or another slice
  contributes it.
\<close>

theorem Update_replaces:
  assumes "rangeOrder (slicesOf (Update (Update e s p E1) s p E2) s) ks"
  shows "Update (Update e s p E1) s p E2 = Update e s p E2 \<and>
    slicesOf (Update (Update e s p E1) s p E2) s p = Some E2 \<and>
    set (Get (Update (Update e s p E1) s p E2) s ks)
      \<subseteq> set E2 \<union> contributed ((slicesOf e s)(p := None)) \<and>
    keyOf ` set (Get (Update (Update e s p E1) s p E2) s ks)
      = keyOf ` (set E2 \<union> contributed ((slicesOf e s)(p := None)))"
proof -
  have eq: "Update (Update e s p E1) s p E2 = Update e s p E2"
    by (simp add: Update_eq slicesOf_upd)
  have sl: "slicesOf (Update e s p E2) s = (slicesOf e s)(p \<mapsto> E2)"
    by (simp add: slicesOf_Update)
  have co: "contributed (slicesOf (Update e s p E2) s) = set E2 \<union> contributed ((slicesOf e s)(p := None))"
    by (simp add: sl contributed_upd)
  have "set (Get (Update e s p E2) s ks) \<subseteq> contributed (slicesOf (Update e s p E2) s)"
    by (rule Get_subset)
  moreover have "keyOf ` set (Get (Update e s p E2) s ks) = keyOf ` contributed (slicesOf (Update e s p E2) s)"
    using assms unfolding eq by (rule Get_keys)
  ultimately show ?thesis
    unfolding eq co by (simp add: sl)
qed

theorem Update_replaces_witness:
  "rangeOrder (slicesOf (Update (Update (Update newEndpointSliceCache ''svc'' ''p2'' [epC])
       ''svc'' ''p1'' [epA]) ''svc'' ''p1'' [epB]) ''svc'') [''p1'', ''p2''] \<and>
   Get (Update (Update (Update newEndpointSliceCache ''svc'' ''p2'' [epC])
       ''svc'' ''p1'' [epA]) ''svc'' ''p1'' [epB]) ''svc'' [''p1'', ''p2''] = [epB, epC] \<and>
   epA \<notin> set (Get (Update (Update (Update newEndpointSliceCache ''svc'' ''p2'' [epC])
       ''svc'' ''p1'' [epA]) ''svc'' ''p1'' [epB]) ''svc'' [''p1'', ''p2''])"
proof -
  have r: "rangeOrder (slicesOf (Update (Update (Update newEndpointSliceCache ''svc'' ''p2'' [epC])
       ''svc'' ''p1'' [epA]) ''svc'' ''p1'' [epB]) ''svc'') [''p1'', ''p2'']"
    by (auto simp: ev)
  show ?thesis
    using r Update_replaces [OF r] by (simp add: ev)
qed

text \<open>
  Claim C4. \<^verbatim>\<open>Update\<close> with an empty endpoint list keeps an entry for the slice, holding
  the empty list, so that \<^verbatim>\<open>Has\<close> is true for the service; the slice contributes nothing
  to the aggregated view, which is the view of the other slices.
\<close>

theorem Update_empty_keeps_entry:
  "slicesOf (Update e s p []) s p = Some [] \<and>
   Has (Update e s p []) s \<and>
   Get (Update e s p []) s ks = snd (GetSlices ((slicesOf e s)(p := None)) ks ({}, [])) \<and>
   set (Get (Update e s p []) s ks) \<subseteq> contributed ((slicesOf e s)(p := None))"
proof -
  have a: "slicesOf (Update e s p []) s p = Some []"
    by (simp add: slicesOf_Update)
  have b: "Has (Update e s p []) s"
    by (simp add: Has_Update)
  have c: "Get (Update e s p []) s ks = snd (GetSlices ((slicesOf e s)(p := None)) ks ({}, []))"
    unfolding Get_def slicesOf_Update
    by (simp add: GetSlices_cong [of ks "(slicesOf e s)(p \<mapsto> [])" "(slicesOf e s)(p := None)"])
  have "set (Get (Update e s p []) s ks) \<subseteq> contributed (slicesOf (Update e s p []) s)"
    by (rule Get_subset)
  then have d: "set (Get (Update e s p []) s ks) \<subseteq> contributed ((slicesOf e s)(p := None))"
    by (simp add: slicesOf_Update contributed_upd)
  from a b c d show ?thesis by blast
qed

theorem Update_empty_keeps_entry_witness:
  "slicesOf (Update (Update newEndpointSliceCache ''svc'' ''p1'' [epA]) ''svc'' ''p1'' []) ''svc'' ''p1''
     = Some [] \<and>
   Has (Update (Update newEndpointSliceCache ''svc'' ''p1'' [epA]) ''svc'' ''p1'' []) ''svc'' \<and>
   Get (Update (Update newEndpointSliceCache ''svc'' ''p1'' [epA]) ''svc'' ''p1'' []) ''svc'' [''p1''] = []"
  using Update_empty_keeps_entry [of "Update newEndpointSliceCache ''svc'' ''p1'' [epA]" "''svc''" "''p1''" "[''p1'']"]
  by (simp add: ev)

text \<open>
  Claim C6. After \<^verbatim>\<open>Delete\<close> of slice \<open>p\<close> of service \<open>s\<close> the service has the
  slices it had except \<open>p\<close>, the aggregated view is drawn from those slices with exactly
  their keys, and \<^verbatim>\<open>Has\<close> is true exactly when another slice remains.
\<close>

theorem Delete_removes_partition:
  assumes "rangeOrder (slicesOf (Delete e s p) s) ks"
  shows "slicesOf (Delete e s p) s = (slicesOf e s)(p := None) \<and>
    set (Get (Delete e s p) s ks) \<subseteq> contributed ((slicesOf e s)(p := None)) \<and>
    keyOf ` set (Get (Delete e s p) s ks) = keyOf ` contributed ((slicesOf e s)(p := None)) \<and>
    Has (Delete e s p) s = (dom (slicesOf e s) - {p} \<noteq> {})"
proof -
  have sl: "slicesOf (Delete e s p) s = (slicesOf e s)(p := None)"
    by (simp add: slicesOf_Delete)
  have "set (Get (Delete e s p) s ks) \<subseteq> contributed (slicesOf (Delete e s p) s)"
    by (rule Get_subset)
  moreover have "keyOf ` set (Get (Delete e s p) s ks) = keyOf ` contributed (slicesOf (Delete e s p) s)"
    using assms by (rule Get_keys)
  moreover have "Has (Delete e s p) s = (dom (slicesOf e s) - {p} \<noteq> {})"
    by (simp add: Has_Delete)
  ultimately show ?thesis
    unfolding sl by simp
qed

theorem Delete_removes_partition_witness:
  "rangeOrder (slicesOf (Delete (Update (Update newEndpointSliceCache ''svc'' ''p1'' [epA])
       ''svc'' ''p2'' [epC]) ''svc'' ''p1'') ''svc'') [''p2''] \<and>
   Get (Delete (Update (Update newEndpointSliceCache ''svc'' ''p1'' [epA])
       ''svc'' ''p2'' [epC]) ''svc'' ''p1'') ''svc'' [''p2''] = [epC] \<and>
   Has (Delete (Update (Update newEndpointSliceCache ''svc'' ''p1'' [epA])
       ''svc'' ''p2'' [epC]) ''svc'' ''p1'') ''svc'' \<and>
   rangeOrder (slicesOf (Delete (Update newEndpointSliceCache ''svc'' ''p1'' [epA]) ''svc'' ''p1'') ''svc'') [] \<and>
   \<not> Has (Delete (Update newEndpointSliceCache ''svc'' ''p1'' [epA]) ''svc'' ''p1'') ''svc''"
proof -
  have r1: "rangeOrder (slicesOf (Delete (Update (Update newEndpointSliceCache ''svc'' ''p1'' [epA])
       ''svc'' ''p2'' [epC]) ''svc'' ''p1'') ''svc'') [''p2'']"
    by (auto simp: ev)
  have r2: "rangeOrder (slicesOf (Delete (Update newEndpointSliceCache ''svc'' ''p1'' [epA])
       ''svc'' ''p1'') ''svc'') []"
    by (auto simp: ev)
  show ?thesis
    using r1 r2 Delete_removes_partition [OF r1] Delete_removes_partition [OF r2]
    by (simp add: ev)
qed

text \<open>
  Claim C7. \<^verbatim>\<open>Update\<close> is idempotent: a second \<^verbatim>\<open>Update\<close> with the same service,
  slice and endpoint list leaves the cache, and so the aggregated view, as the first left them.
\<close>

theorem Update_idempotent:
  "Update (Update e s p E) s p E = Update e s p E \<and>
   Get (Update (Update e s p E) s p E) s ks = Get (Update e s p E) s ks"
proof -
  have "Update (Update e s p E) s p E = Update e s p E"
    by (simp add: Update_eq slicesOf_upd)
  then show ?thesis by simp
qed

theorem Update_idempotent_witness:
  "Update (Update newEndpointSliceCache ''svc'' ''p1'' [epA]) ''svc'' ''p1'' [epA]
     = Update newEndpointSliceCache ''svc'' ''p1'' [epA] \<and>
   Get (Update (Update newEndpointSliceCache ''svc'' ''p1'' [epA]) ''svc'' ''p1'' [epA]) ''svc'' [''p1'']
     = [epA] \<and>
   Update (Update newEndpointSliceCache ''svc'' ''p1'' ([] :: unit IstioEndpoint list)) ''svc'' ''p1'' []
     = Update newEndpointSliceCache ''svc'' ''p1'' []"
  using Update_idempotent [of newEndpointSliceCache "''svc''" "''p1''" "[epA]" "[''p1'']"]
    Update_idempotent [of newEndpointSliceCache "''svc''" "''p1''" "[] :: unit IstioEndpoint list" "[''p1'']"]
  by (simp add: ev)

text \<open>
  Claim C10. In every cache state that \<^verbatim>\<open>Update\<close> and \<^verbatim>\<open>Delete\<close> produce from the
  new cache, a service that has an entry has at least one slice entry, so \<^verbatim>\<open>Has\<close> is true
  exactly for the services with a slice entry (which may hold the empty list).
\<close>

theorem reachable_service_nonempty:
  assumes "reachable e"
  shows "(\<forall>h m. e h = Some m \<longrightarrow> dom m \<noteq> {}) \<and>
         (\<forall>h. Has e h = (\<exists>p eps. slicesOf e h p = Some eps))"
proof -
  have a: "\<forall>h m. e h = Some m \<longrightarrow> dom m \<noteq> {}"
    using assms reachable_nonempty by blast
  have "Has e h = (\<exists>p eps. slicesOf e h p = Some eps)" for h
  proof (cases "e h")
    case None
    then show ?thesis by (simp add: Has_def slicesOf_def)
  next
    case (Some m)
    with a have "dom m \<noteq> {}" by blast
    then have "\<exists>p eps. m p = Some eps" by auto
    with Some show ?thesis by (simp add: Has_def slicesOf_def)
  qed
  with a show ?thesis by blast
qed

theorem reachable_service_nonempty_witness:
  "reachable (Delete (Update (Update newEndpointSliceCache ''svc'' ''p1'' [])
       ''svc'' ''p2'' [epA]) ''svc'' ''p2'') \<and>
   Has (Delete (Update (Update newEndpointSliceCache ''svc'' ''p1'' [])
       ''svc'' ''p2'' [epA]) ''svc'' ''p2'') ''svc'' \<and>
   slicesOf (Delete (Update (Update newEndpointSliceCache ''svc'' ''p1'' [])
       ''svc'' ''p2'' [epA]) ''svc'' ''p2'') ''svc'' ''p1'' = Some [] \<and>
   \<not> Has (Delete (Update (Update newEndpointSliceCache ''svc'' ''p1'' [])
       ''svc'' ''p2'' [epA]) ''svc'' ''p2'') ''other''"
proof -
  have r: "reachable (Delete (Update (Update (newEndpointSliceCache :: unit endpointSliceCache) ''svc'' ''p1'' [])
       ''svc'' ''p2'' [epA]) ''svc'' ''p2'')"
    by (intro reachable.intros)
  show ?thesis
    using r reachable_service_nonempty [OF r] by (simp add: ev)
qed

subsection \<open>Facts about the processor and the point query\<close>

lemma portsLoop_eq:
  "portsLoop c pod a pol ready draining ports endpoints =
     endpoints @ map (\<lambda>prt.
       (buildIstioEndpoint c pod a
          (case ep_Port prt of Some n \<Rightarrow> n | None \<Rightarrow> 0)
          (case ep_Name prt of Some s \<Rightarrow> s | None \<Rightarrow> '''') pol)
       \<lparr>HealthStatus := (if ready then Healthy else if draining then Draining else UnHealthy)\<rparr>) ports"
  by (induction ports arbitrary: endpoints) (simp_all add: Let_def)

lemma addressesLoop_eq:
  "addressesLoop c slc e hostName pol ready draining addrs endpoints =
     endpoints @ concat (map (\<lambda>a.
       (case getPod c a (es_Name slc, es_Namespace slc) (TargetRef e) hostName of
          (pod, expectedPod) \<Rightarrow>
            if pod = None \<and> expectedPod then []
            else map (\<lambda>prt.
                   (buildIstioEndpoint c pod a
                      (case ep_Port prt of Some n \<Rightarrow> n | None \<Rightarrow> 0)
                      (case ep_Name prt of Some s \<Rightarrow> s | None \<Rightarrow> '''') pol)
                   \<lparr>HealthStatus := (if ready then Healthy else if draining then Draining else UnHealthy)\<rparr>)
                 (es_Ports slc))) addrs)"
proof (induction addrs arbitrary: endpoints)
  case Nil
  show ?case by simp
next
  case (Cons a addrs)
  show ?case
    by (cases "getPod c a (es_Name slc, es_Namespace slc) (TargetRef e) hostName")
       (simp add: Cons.IH portsLoop_eq)
qed

lemma addressesLoop_entry:
  "addressesLoop c slc e hostName pol ready draining (Addresses e) endpoints =
     endpoints @ entryEndpoints c slc hostName pol e
       (if ready then Healthy else if draining then Draining else UnHealthy)"
  by (simp add: addressesLoop_eq entryEndpoints_def)

lemma draining_eq:
  "(PersistentSessionLabel c \<noteq> '''' \<and>
     (case svc of
        None \<Rightarrow> False
      | Some s \<Rightarrow>
          (case Labels (Attributes s) of
             None \<Rightarrow> False
           | Some ls \<Rightarrow>
               (case ls (PersistentSessionLabel c) of None \<Rightarrow> '''' | Some v \<Rightarrow> v) \<noteq> '''' \<and>
               (case Ready (Conditions e) of
                  None \<Rightarrow> False
                | Some r \<Rightarrow>
                    (case Serving (Conditions e) of
                       None \<Rightarrow> False
                     | Some sv \<Rightarrow> sv \<and> \<not> r)))))
   = spec_draining c svc e"
  by (auto simp: spec_draining_def spec_carriesLabel_def split: option.splits)

lemma endpointsLoop_Cons:
  "endpointsLoop c slc hostName svc pol (e # es) endpoints =
     endpointsLoop c slc hostName svc pol es
       (endpoints @ (case spec_outcome c svc e of
                       None \<Rightarrow> []
                     | Some st \<Rightarrow> entryEndpoints c slc hostName pol e st))"
proof -
  have r: "(Ready (Conditions e) = None \<or> Ready (Conditions e) = Some True) = spec_ready e"
    by (auto simp: spec_ready_def)
  have nr: "(Ready (Conditions e) = Some False) = (\<not> spec_ready e)"
    by (cases "Ready (Conditions e)") (auto simp: spec_ready_def)
  show ?thesis
    unfolding endpointsLoop.simps Let_def draining_eq r nr addressesLoop_entry spec_outcome_def
    by (cases "spec_ready e"; cases "spec_draining c svc e"; cases "SendUnhealthyEndpoints c") simp_all
qed

lemma endpointsLoop_eq:
  "endpointsLoop c slc hostName svc pol es endpoints =
     endpoints @ concat (map (\<lambda>e.
       (case spec_outcome c svc e of
          None \<Rightarrow> []
        | Some st \<Rightarrow> entryEndpoints c slc hostName pol e st)) es)"
proof (induction es arbitrary: endpoints)
  case Nil
  show ?case by simp
next
  case (Cons e es)
  show ?case
    by (simp only: endpointsLoop_Cons Cons.IH) simp
qed

lemma processor_eq:
  "AddressType slc \<noteq> AddressTypeFQDN \<Longrightarrow>
   updateEndpointCacheForSlice c cache hostName slc =
     Update cache hostName (es_Name slc) (spec_sliceEndpoints c slc hostName)"
  by (simp add: updateEndpointCacheForSlice_def Let_def endpointsLoop_eq spec_sliceEndpoints_def)

lemma processor_FQDN:
  "AddressType slc = AddressTypeFQDN \<Longrightarrow> updateEndpointCacheForSlice c cache hostName slc = cache"
  by (simp add: updateEndpointCacheForSlice_def)

lemma entryEndpoints_status:
  "ep \<in> set (entryEndpoints c slc hostName pol e st) \<Longrightarrow> HealthStatus ep = st"
  by (auto simp: entryEndpoints_def split: prod.splits if_splits)



lemma instancePortsLoop_eq:
  "instancePortsLoop esc pod a svc svcPort pol ports out =
     out @ map (\<lambda>prt.
       \<lparr>si_Endpoint = buildIstioEndpoint esc pod a
          (case ep_Port prt of Some n \<Rightarrow> n | None \<Rightarrow> 0) (sp_Name svcPort) pol,
        si_ServicePort = svcPort, si_Service = svc\<rparr>)
       (filter (\<lambda>prt. ep_Name prt = None \<or> ep_Name prt = Some (sp_Name svcPort)) ports)"
  by (induction ports arbitrary: out) (simp_all add: Let_def)

lemma instanceAddressesLoop_eq:
  "instanceAddressesLoop esc c slc e svc svcPort pol addrs out =
     out @ concat (map (\<lambda>a.
       (case getPod c a (es_Name slc, es_Namespace slc) (TargetRef e) (Hostname svc) of
          (pod, expectedPod) \<Rightarrow>
            if pod = None \<and> expectedPod then []
            else map (\<lambda>prt.
                   \<lparr>si_Endpoint = buildIstioEndpoint esc pod a
                      (case ep_Port prt of Some n \<Rightarrow> n | None \<Rightarrow> 0) (sp_Name svcPort) pol,
                    si_ServicePort = svcPort, si_Service = svc\<rparr>)
                 (filter (\<lambda>prt. ep_Name prt = None \<or> ep_Name prt = Some (sp_Name svcPort))
                    (es_Ports slc)))) addrs)"
proof (induction addrs arbitrary: out)
  case Nil
  show ?case by simp
next
  case (Cons a addrs)
  show ?case
    by (cases "getPod c a (es_Name slc, es_Namespace slc) (TargetRef e) (Hostname svc)")
       (simp add: Cons.IH instancePortsLoop_eq)
qed

lemma instanceEndpointsLoop_eq:
  "instanceEndpointsLoop esc c slc svc svcPort pol es out =
     out @ concat (map (\<lambda>e. concat (map (\<lambda>a.
       (case getPod c a (es_Name slc, es_Namespace slc) (TargetRef e) (Hostname svc) of
          (pod, expectedPod) \<Rightarrow>
            if pod = None \<and> expectedPod then []
            else map (\<lambda>prt.
                   \<lparr>si_Endpoint = buildIstioEndpoint esc pod a
                      (case ep_Port prt of Some n \<Rightarrow> n | None \<Rightarrow> 0) (sp_Name svcPort) pol,
                    si_ServicePort = svcPort, si_Service = svc\<rparr>)
                 (filter (\<lambda>prt. ep_Name prt = None \<or> ep_Name prt = Some (sp_Name svcPort))
                    (es_Ports slc)))) (Addresses e))) es)"
proof (induction es arbitrary: out)
  case Nil
  show ?case by simp
next
  case (Cons e es)
  show ?case
    by (simp add: Cons.IH instanceAddressesLoop_eq)
qed

lemma instanceEndpointsLoop_slice:
  "instanceEndpointsLoop esc c slc svc svcPort (EndpointDiscoverabilityPolicy c (Some svc))
     (Endpoints slc) out = out @ spec_sliceInstances esc c svc svcPort slc"
  by (simp add: instanceEndpointsLoop_eq spec_sliceInstances_def)

lemma instanceSlicesLoop_eq:
  "instanceSlicesLoop esc c svc svcPort (EndpointDiscoverabilityPolicy c (Some svc)) slices out =
     out @ concat (map (spec_sliceInstances esc c svc svcPort)
                     (filter (\<lambda>slc. AddressType slc \<noteq> AddressTypeFQDN) slices))"
proof (induction slices arbitrary: out)
  case Nil
  show ?case by simp
next
  case (Cons slc slices)
  show ?case
    by (simp add: Cons.IH instanceEndpointsLoop_slice)
qed

lemmas ex = exampleController_def exampleService_def plainService_def externalService_def
  entry_def httpPort_def barePort_def sliceHealth_def sliceFQDN_def sliceEmpty_def slicePorts_def
  sliceA_def sliceB_def mkEndpoint_def AddressTypeFQDN_def

lemmas spec = spec_sliceEndpoints_def spec_outcome_def spec_ready_def spec_draining_def
  spec_carriesLabel_def entryEndpoints_def spec_sliceInstances_def

subsection \<open>The claims about the processor and the point query\<close>

text \<open>
  Claim C1. For a slice whose address type is not FQDN the processor writes, under the
  slice's name, the endpoints of its entries as the decision table rules: an entry whose
  readiness condition is true or absent is included with status \<open>Healthy\<close>; otherwise an
  entry that is draining (the persistent-session label is configured, the service carries
  it with a non-empty value, the serving condition is true, the readiness condition is
  false) is included with status \<open>Draining\<close>; otherwise the entry is included with
  status \<open>UnHealthy\<close> when unhealthy endpoints are sent, and left out when they are not.
  Every endpoint of an included entry carries the status of the table.
\<close>

theorem health_decision_table:
  assumes "AddressType slc \<noteq> AddressTypeFQDN"
  shows "slicesOf (updateEndpointCacheForSlice c cache hostName slc) hostName (es_Name slc)
           = Some (spec_sliceEndpoints c slc hostName) \<and>
         (\<forall>e st ep. ep \<in> set (entryEndpoints c slc hostName
                                  (EndpointDiscoverabilityPolicy c (GetService c hostName)) e st)
            \<longrightarrow> HealthStatus ep = st)"
proof -
  have "slicesOf (updateEndpointCacheForSlice c cache hostName slc) hostName (es_Name slc)
          = Some (spec_sliceEndpoints c slc hostName)"
    using assms by (simp add: processor_eq slicesOf_Update)
  moreover have "HealthStatus ep = st"
    if "ep \<in> set (entryEndpoints c slc hostName
                      (EndpointDiscoverabilityPolicy c (GetService c hostName)) e st)"
    for e st ep
    using that by (rule entryEndpoints_status)
  ultimately show ?thesis
    by blast
qed

theorem health_decision_table_witness:
  "AddressType sliceHealth \<noteq> AddressTypeFQDN \<and>
   slicesOf (updateEndpointCacheForSlice (exampleController False) newEndpointSliceCache
               ''svc'' sliceHealth) ''svc'' ''p1''
     = Some [mkEndpoint ''10.0.0.1'' ''http'' 8080 Healthy,
             mkEndpoint ''10.0.0.2'' ''http'' 8080 Healthy,
             mkEndpoint ''10.0.0.3'' ''http'' 8080 Draining] \<and>
   slicesOf (updateEndpointCacheForSlice (exampleController True) newEndpointSliceCache
               ''svc'' sliceHealth) ''svc'' ''p1''
     = Some [mkEndpoint ''10.0.0.1'' ''http'' 8080 Healthy,
             mkEndpoint ''10.0.0.2'' ''http'' 8080 Healthy,
             mkEndpoint ''10.0.0.3'' ''http'' 8080 Draining,
             mkEndpoint ''10.0.0.4'' ''http'' 8080 UnHealthy] \<and>
   slicesOf (updateEndpointCacheForSlice (exampleController False) newEndpointSliceCache
               ''plain'' sliceHealth) ''plain'' ''p1''
     = Some [mkEndpoint ''10.0.0.1'' ''http'' 8080 Healthy,
             mkEndpoint ''10.0.0.2'' ''http'' 8080 Healthy] \<and>
   slicesOf (updateEndpointCacheForSlice (exampleController True) newEndpointSliceCache
               ''plain'' sliceHealth) ''plain'' ''p1''
     = Some [mkEndpoint ''10.0.0.1'' ''http'' 8080 Healthy,
             mkEndpoint ''10.0.0.2'' ''http'' 8080 Healthy,
             mkEndpoint ''10.0.0.3'' ''http'' 8080 UnHealthy,
             mkEndpoint ''10.0.0.4'' ''http'' 8080 UnHealthy]"
proof -
  have ne: "AddressType sliceHealth \<noteq> AddressTypeFQDN"
    by (simp add: ex)
  show ?thesis
    using ne
      health_decision_table [OF ne, where c = "exampleController False"
        and cache = newEndpointSliceCache and hostName = "''svc''"]
      health_decision_table [OF ne, where c = "exampleController True"
        and cache = newEndpointSliceCache and hostName = "''svc''"]
      health_decision_table [OF ne, where c = "exampleController False"
        and cache = newEndpointSliceCache and hostName = "''plain''"]
      health_decision_table [OF ne, where c = "exampleController True"
        and cache = newEndpointSliceCache and hostName = "''plain''"]
    by (simp add: ex spec)
qed

text \<open>
  Claim C5, as the code has it. A slice whose address type is not FQDN ends in
  \<^verbatim>\<open>Update\<close> with the computed list: the slice's entry holds that list, also when it is
  empty, the service has an entry, and the aggregated view is drawn from the list and the
  other slices only. A slice of address type FQDN returns before \<^verbatim>\<open>Update\<close>: the cache
  is left as it was, so that no entry is recorded for the slice and an entry recorded
  earlier under its name stays.
\<close>

theorem processor_writes_unless_FQDN:
  "(AddressType slc \<noteq> AddressTypeFQDN \<longrightarrow>
      updateEndpointCacheForSlice c cache hostName slc
        = Update cache hostName (es_Name slc) (spec_sliceEndpoints c slc hostName) \<and>
      slicesOf (updateEndpointCacheForSlice c cache hostName slc) hostName (es_Name slc)
        = Some (spec_sliceEndpoints c slc hostName) \<and>
      Has (updateEndpointCacheForSlice c cache hostName slc) hostName \<and>
      set (Get (updateEndpointCacheForSlice c cache hostName slc) hostName ks)
        \<subseteq> set (spec_sliceEndpoints c slc hostName)
            \<union> contributed ((slicesOf cache hostName)(es_Name slc := None))) \<and>
   (AddressType slc = AddressTypeFQDN \<longrightarrow>
      updateEndpointCacheForSlice c cache hostName slc = cache)"
proof (intro conjI impI)
  assume ne: "AddressType slc \<noteq> AddressTypeFQDN"
  show eq: "updateEndpointCacheForSlice c cache hostName slc
        = Update cache hostName (es_Name slc) (spec_sliceEndpoints c slc hostName)"
    using ne by (rule processor_eq)
  show "slicesOf (updateEndpointCacheForSlice c cache hostName slc) hostName (es_Name slc)
        = Some (spec_sliceEndpoints c slc hostName)"
    by (simp add: eq slicesOf_Update)
  show "Has (updateEndpointCacheForSlice c cache hostName slc) hostName"
    by (simp add: eq Has_Update)
  have "set (Get (updateEndpointCacheForSlice c cache hostName slc) hostName ks)
          \<subseteq> contributed (slicesOf (updateEndpointCacheForSlice c cache hostName slc) hostName)"
    by (rule Get_subset)
  then show "set (Get (updateEndpointCacheForSlice c cache hostName slc) hostName ks)
        \<subseteq> set (spec_sliceEndpoints c slc hostName)
            \<union> contributed ((slicesOf cache hostName)(es_Name slc := None))"
    by (simp add: eq slicesOf_Update contributed_upd)
next
  assume "AddressType slc = AddressTypeFQDN"
  then show "updateEndpointCacheForSlice c cache hostName slc = cache"
    by (rule processor_FQDN)
qed

theorem processor_writes_unless_FQDN_witness:
  "AddressType sliceEmpty \<noteq> AddressTypeFQDN \<and>
   slicesOf (updateEndpointCacheForSlice (exampleController False)
               (Update newEndpointSliceCache ''svc'' ''p1'' [epA]) ''svc'' sliceEmpty)
     ''svc'' ''p1'' = Some [] \<and>
   Has (updateEndpointCacheForSlice (exampleController False)
          (Update newEndpointSliceCache ''svc'' ''p1'' [epA]) ''svc'' sliceEmpty) ''svc'' \<and>
   Get (updateEndpointCacheForSlice (exampleController False)
          (Update newEndpointSliceCache ''svc'' ''p1'' [epA]) ''svc'' sliceEmpty)
     ''svc'' [''p1''] = [] \<and>
   AddressType sliceFQDN = AddressTypeFQDN \<and>
   updateEndpointCacheForSlice (exampleController False)
     (Update newEndpointSliceCache ''ext'' ''p0'' [epA]) ''ext'' sliceFQDN
     = Update newEndpointSliceCache ''ext'' ''p0'' [epA]"
proof -
  have ne: "AddressType sliceEmpty \<noteq> AddressTypeFQDN"
    by (simp add: ex)
  have fq: "AddressType sliceFQDN = AddressTypeFQDN"
    by (simp add: ex)
  show ?thesis
    using ne fq
      processor_writes_unless_FQDN [where slc = sliceEmpty and c = "exampleController False"
        and cache = "Update newEndpointSliceCache ''svc'' ''p1'' [epA]"
        and hostName = "''svc''" and ks = "[''p1'']"]
      processor_writes_unless_FQDN [where slc = sliceFQDN and c = "exampleController False"
        and cache = "Update newEndpointSliceCache ''ext'' ''p0'' [epA]"
        and hostName = "''ext''" and ks = "[''p0'']"]
    by (simp add: ex spec ev)
qed

text \<open>
  Against claim C5 as worded: the processor run on a slice of address type FQDN calls no
  \<^verbatim>\<open>Update\<close>. The entry \<^verbatim>\<open>p1\<close> recorded before the run still holds its endpoint and
  the aggregated view still returns it, where \<^verbatim>\<open>Update\<close> with the empty list would
  leave the empty list; on the new cache the run records no entry, where \<^verbatim>\<open>Update\<close>
  with the empty list would record one.
\<close>

theorem processor_FQDN_keeps_prior_contribution:
  "AddressType sliceFQDN = AddressTypeFQDN \<and>
   es_Name sliceFQDN = ''p1'' \<and>
   slicesOf (updateEndpointCacheForSlice (exampleController False)
               (Update newEndpointSliceCache ''ext'' ''p1'' [epA]) ''ext'' sliceFQDN)
     ''ext'' ''p1'' = Some [epA] \<and>
   Get (updateEndpointCacheForSlice (exampleController False)
          (Update newEndpointSliceCache ''ext'' ''p1'' [epA]) ''ext'' sliceFQDN)
     ''ext'' [''p1''] = [epA] \<and>
   Get (Update (Update newEndpointSliceCache ''ext'' ''p1'' [epA]) ''ext'' ''p1'' [])
     ''ext'' [''p1''] = [] \<and>
   \<not> Has (updateEndpointCacheForSlice (exampleController False)
            (newEndpointSliceCache :: unit endpointSliceCache) ''ext'' sliceFQDN) ''ext'' \<and>
   Has (Update (newEndpointSliceCache :: unit endpointSliceCache) ''ext'' ''p1'' []) ''ext''"
  by (simp add: updateEndpointCacheForSlice_def ex ev)




text \<open>
  Claim C9, as the code has it. The point query lists the slices of the service and looks
  the requested number up in the service's ports with \<^verbatim>\<open>GetByPort\<close>, a method of the
  port list that this file only calls. When the listing fails, or the lookup returns no
  port, the query returns nothing, whatever ports the service declares. Otherwise, with the
  port the lookup returns as the service port, it returns, slice after slice in the order
  listed and skipping every slice of address type FQDN, one instance for each entry, each
  address whose pod is found or not expected, and each port of the slice that has no name
  or the name of the service port. Nothing is removed from the result: an address that two
  slices hold comes back once for each. This holds for every lookup, lister, pod lookup
  and endpoint builder.
\<close>

theorem InstancesByPort_skips_FQDN:
  "InstancesByPort esc c svc reqSvcPort =
     (case listSlices esc (attr_Namespace (Attributes svc)) (attr_Name (Attributes svc)) of
        Inl err \<Rightarrow> []
      | Inr slices \<Rightarrow>
          (case GetByPort c (svc_Ports svc) reqSvcPort of
             None \<Rightarrow> []
           | Some svcPort \<Rightarrow>
               concat (map (spec_sliceInstances esc c svc svcPort)
                         (filter (\<lambda>slc. AddressType slc \<noteq> AddressTypeFQDN) slices))))"
proof (cases "listSlices esc (attr_Namespace (Attributes svc)) (attr_Name (Attributes svc))")
  case (Inl err)
  then show ?thesis
    by (simp add: InstancesByPort_def)
next
  case (Inr slices)
  show ?thesis
  proof (cases "GetByPort c (svc_Ports svc) reqSvcPort")
    case None
    with Inr show ?thesis
      by (simp add: InstancesByPort_def)
  next
    case (Some svcPort)
    show ?thesis
    proof (cases "slices = []")
      case True
      with Inr Some show ?thesis
        by (simp add: InstancesByPort_def)
    next
      case False
      with Inr Some show ?thesis
        by (simp add: InstancesByPort_def instanceSlicesLoop_eq)
    qed
  qed
qed

theorem InstancesByPort_skips_FQDN_witness:
  "listSlices (exampleController False) (attr_Namespace (Attributes exampleService))
     (attr_Name (Attributes exampleService)) = Inr [sliceA, sliceFQDN, sliceB] \<and>
   GetByPort (exampleController False) (svc_Ports exampleService) 80
     = Some \<lparr>sp_Name = ''http'', sp_Port = 80\<rparr> \<and>
   InstancesByPort (exampleController False) (exampleController False) exampleService 80
     = [\<lparr>si_Endpoint = mkEndpoint ''10.0.0.1'' ''http'' 8080 Healthy,
         si_ServicePort = \<lparr>sp_Name = ''http'', sp_Port = 80\<rparr>, si_Service = exampleService\<rparr>,
        \<lparr>si_Endpoint = mkEndpoint ''10.0.0.1'' ''http'' 7070 Healthy,
         si_ServicePort = \<lparr>sp_Name = ''http'', sp_Port = 80\<rparr>, si_Service = exampleService\<rparr>,
        \<lparr>si_Endpoint = mkEndpoint ''10.0.0.1'' ''http'' 8080 Healthy,
         si_ServicePort = \<lparr>sp_Name = ''http'', sp_Port = 80\<rparr>, si_Service = exampleService\<rparr>] \<and>
   GetByPort (exampleController False) (svc_Ports exampleService) 81 = None \<and>
   InstancesByPort (exampleController False) (exampleController False) exampleService 81 = [] \<and>
   svc_Ports exampleService = [\<lparr>sp_Name = ''http'', sp_Port = 80\<rparr>] \<and>
   InstancesByPort (exampleController False)
     ((exampleController False)\<lparr>GetByPort := (\<lambda>ports n. None)\<rparr>) exampleService 80 = [] \<and>
   InstancesByPort (exampleController False)
     ((exampleController False)\<lparr>GetByPort := (\<lambda>ports n. Some \<lparr>sp_Name = ''grpc'', sp_Port = 9999\<rparr>)\<rparr>)
     exampleService 80
     = [\<lparr>si_Endpoint = mkEndpoint ''10.0.0.1'' ''grpc'' 9090 Healthy,
         si_ServicePort = \<lparr>sp_Name = ''grpc'', sp_Port = 9999\<rparr>, si_Service = exampleService\<rparr>,
        \<lparr>si_Endpoint = mkEndpoint ''10.0.0.1'' ''grpc'' 7070 Healthy,
         si_ServicePort = \<lparr>sp_Name = ''grpc'', sp_Port = 9999\<rparr>, si_Service = exampleService\<rparr>] \<and>
   listSlices (exampleController False) (attr_Namespace (Attributes unlistedService))
     (attr_Name (Attributes unlistedService)) = Inl ''not found'' \<and>
   InstancesByPort (exampleController False) (exampleController False) unlistedService 80 = []"
  using
    InstancesByPort_skips_FQDN [of "exampleController False" "exampleController False"
      exampleService 80]
    InstancesByPort_skips_FQDN [of "exampleController False" "exampleController False"
      exampleService 81]
    InstancesByPort_skips_FQDN [of "exampleController False"
      "(exampleController False)\<lparr>GetByPort := (\<lambda>ports n. None)\<rparr>" exampleService 80]
    InstancesByPort_skips_FQDN [of "exampleController False"
      "(exampleController False)\<lparr>GetByPort := (\<lambda>ports n. Some \<lparr>sp_Name = ''grpc'', sp_Port = 9999\<rparr>)\<rparr>"
      exampleService 80]
    InstancesByPort_skips_FQDN [of "exampleController False" "exampleController False"
      unlistedService 80]
  by (simp add: ex spec unlistedService_def)

text \<open>
  Against claim C9 as worded: the service declares the port 80 and the lookup returns it,
  its one slice holds an entry with an address whose pod is not expected and a port with
  the name of the service port, so that the combination calls for one instance; the slice
  has the address type FQDN and the point query returns nothing.
\<close>

theorem InstancesByPort_FQDN_slice_dropped:
  "listSlices (exampleController False) (attr_Namespace (Attributes externalService))
     (attr_Name (Attributes externalService)) = Inr [sliceFQDN] \<and>
   GetByPort (exampleController False) (svc_Ports externalService) 80
     = Some \<lparr>sp_Name = ''http'', sp_Port = 80\<rparr> \<and>
   spec_sliceInstances (exampleController False) (exampleController False) externalService
     \<lparr>sp_Name = ''http'', sp_Port = 80\<rparr> sliceFQDN
     = [\<lparr>si_Endpoint = mkEndpoint ''example.com'' ''http'' 8080 Healthy,
         si_ServicePort = \<lparr>sp_Name = ''http'', sp_Port = 80\<rparr>, si_Service = externalService\<rparr>] \<and>
   InstancesByPort (exampleController False) (exampleController False) externalService 80 = []"
  by (simp add: InstancesByPort_def ex spec)

end
